theory Spec2Isabelle
  imports Complex_Main "HOL-Library.Word"
begin

unbundle bit_operations_syntax

section \<open>Machine types of simple\_text.h\<close>

text \<open>
  The library is built for the PSP (32-bit MIPS, psp-gcc): \<open>int\<close> and \<open>size_t\<close> are
  32 bits wide and plain \<open>char\<close> is a signed 8-bit byte. A \<open>char\<close> is an \<open>8 word\<close>, a
  code point (\<open>uint32_t\<close>) is a \<open>32 word\<close>. A \<open>std::string\<close> is the list of its bytes;
  \<open>c_str\<close> is what \<open>strlen\<close> and the byte loop see of it: the bytes before the first NUL.
\<close>

type_synonym cchar = "8 word"
type_synonym std_string = "cchar list"
type_synonym codepoint = "32 word"

definition c_str :: "std_string \<Rightarrow> cchar list" where
  "c_str s = takeWhile (\<lambda>c. c \<noteq> 0) s"

text \<open>Integral promotion of a (signed) \<open>char\<close> to \<open>int\<close>, read as 32 bits.\<close>

definition char_to_int :: "cchar \<Rightarrow> 32 word" where
  "char_to_int c = scast c"

section \<open>Code-point decoder\<close>

definition is_utf8_start :: "cchar \<Rightarrow> bool" where
  "is_utf8_start c \<longleftrightarrow> (c AND 0xE0) = 0xC0 \<or> (c AND 0xF0) = 0xE0 \<or> (c AND 0xF8) = 0xF0"

definition is_utf_cont :: "cchar \<Rightarrow> bool" where
  "is_utf_cont c \<longleftrightarrow> (c AND 0xC0) = 0x80"

text \<open>
  The body of the \<open>for\<close> loop of \<open>get_utf8_char_vector\<close>, by recursion on the bytes
  from \<open>text[i]\<close> on. The loop state is \<open>temp_char\<close>, \<open>current_offset\<close> (a \<open>uint8_t\<close>,
  so \<open>current_offset--\<close> wraps) and \<open>mask\<close> (written \<open>msk\<close>); the result is what is pushed to
  \<open>converted\<close> from this position on. The test
  \<open>(i + 1 < strlen(text) && !is_utf_cont(text[i + 1])) || (i + 1 == strlen(text))\<close>
  looks at the rest \<open>cs\<close> of the bytes. \<open>num\<close> is only read when \<open>current_offset\<close> is
  0, 1 or 2, where the shift is by 0, 8 or 16 bits.
\<close>

fun utf8_loop :: "cchar list \<Rightarrow> 32 word \<Rightarrow> 8 word \<Rightarrow> 32 word \<Rightarrow> codepoint list" where
  "utf8_loop [] temp_char current_offset msk = []"
| "utf8_loop (c # cs) temp_char current_offset msk =
     (if is_utf8_start c then
        (if (c AND 0xE0) = 0xC0 then
           utf8_loop cs (0 OR push_bit 8 (char_to_int c)) 0 0xffff0000
         else if (c AND 0xF0) = 0xE0 then
           utf8_loop cs (0 OR push_bit 16 (char_to_int c)) 1 0xff000000
         else if (c AND 0xF8) = 0xF0 then
           utf8_loop cs (0 OR push_bit 24 (char_to_int c)) 2 0x00000000
         else utf8_loop cs 0 0 msk)
      else if is_utf_cont c then
        (let num = push_bit (unat current_offset * 8) (char_to_int c);
             t0 = (if current_offset = 0 then temp_char OR (num AND 0xff0000ff) else temp_char);
             t1 = (if current_offset = 1 then t0 OR (num AND 0xff00ffff) else t0);
             t2 = (if current_offset = 2 then t1 OR (num AND 0xffffffff) else t1);
             off = current_offset - 1
         in if (cs \<noteq> [] \<and> \<not> is_utf_cont (hd cs)) \<or> cs = []
            then (t2 XOR msk) # utf8_loop cs (t2 XOR msk) off msk
            else utf8_loop cs t2 off msk)
      else char_to_int c # utf8_loop cs temp_char current_offset msk)"

text \<open>
  \<open>get_utf8_char_vector(text)\<close>. The local \<open>mask\<close> is declared without an initial
  value, and a continuation byte that comes before any start byte reads it: \<open>mask0\<close>
  stands for whatever the variable holds then. The argument is the C string's bytes
  before its terminator.
\<close>

definition get_utf8_char_vector :: "32 word \<Rightarrow> cchar list \<Rightarrow> codepoint list" where
  "get_utf8_char_vector mask0 text = utf8_loop text 0 0 mask0"

section \<open>C integer arithmetic\<close>

text \<open>
  \<open>int\<close> values are modelled as mathematical integers with the 32-bit wrap-around
  written out: \<open>s32\<close> is the value an \<open>int\<close> holds after an operation whose exact
  result is the argument, \<open>u32\<close> is the conversion to \<open>size_t\<close> (32 bits on the
  PSP). \<open>c_div\<close> and \<open>c_rem\<close> are C's \<open>/\<close> and \<open>%\<close>, which truncate towards zero.
\<close>

definition s32 :: "int \<Rightarrow> int" where
  "s32 i = (i + 2 ^ 31) mod 2 ^ 32 - 2 ^ 31"

definition u32 :: "int \<Rightarrow> int" where
  "u32 i = i mod 2 ^ 32"

definition c_div :: "int \<Rightarrow> int \<Rightarrow> int" where
  "c_div a b = (if (a < 0) = (b < 0) then \<bar>a\<bar> div \<bar>b\<bar> else - (\<bar>a\<bar> div \<bar>b\<bar>))"

definition c_rem :: "int \<Rightarrow> int \<Rightarrow> int" where
  "c_rem a b = a - b * c_div a b"

section \<open>Glyph index\<close>

fun char_index_loop :: "codepoint \<Rightarrow> codepoint list \<Rightarrow> nat \<Rightarrow> int" where
  "char_index_loop character [] i = -1"
| "char_index_loop character (a # utf8_atlas) i =
     (if a = character then s32 (int i) else char_index_loop character utf8_atlas (Suc i))"

definition get_char_index :: "32 word \<Rightarrow> codepoint \<Rightarrow> cchar list \<Rightarrow> int" where
  "get_char_index mask0 character atlas =
     char_index_loop character (get_utf8_char_vector mask0 atlas) 0"

datatype SDL_Rect = Rect (rect_x: int) (rect_y: int) (rect_w: int) (rect_h: int)

text \<open>
  The library only calls this with a 512 x 512 atlas of 32 x 32 cells, so
  \<open>cells_per_row\<close> is 16 there; a zero \<open>cells_per_row\<close> (a division by zero in C)
  is outside what is modelled.
\<close>

definition get_atlas_rect_by_index :: "int \<Rightarrow> int \<Rightarrow> int \<Rightarrow> int \<Rightarrow> int \<Rightarrow> SDL_Rect" where
  "get_atlas_rect_by_index index atlas_width atlas_height cell_width cell_height =
     (let cells_per_row = c_div atlas_width cell_width;
          row = c_div index cells_per_row;
          col = c_rem index cells_per_row
      in Rect (s32 (col * cell_width)) (s32 (row * cell_height)) cell_width cell_height)"

section \<open>Line layout\<close>

definition remove_new_lines :: "std_string \<Rightarrow> std_string" where
  "remove_new_lines input_string = filter (\<lambda>c. c \<noteq> 0x0A) input_string"

text \<open>
  The \<open>while (std::getline(iss, line, '\n'))\<close> loop: \<open>line\<close> is the text read since
  the last delimiter. At the end of the input \<open>getline\<close> succeeds once more only if it
  extracted at least one character.
\<close>

fun getline_loop :: "std_string \<Rightarrow> std_string \<Rightarrow> std_string list" where
  "getline_loop line [] = (if line = [] then [] else [remove_new_lines line])"
| "getline_loop line (c # cs) =
     (if c = 0x0A then remove_new_lines line # getline_loop [] cs
      else getline_loop (line @ [c]) cs)"

definition split_string_by_newline :: "std_string \<Rightarrow> std_string list" where
  "split_string_by_newline input_string = getline_loop [] input_string"

text \<open>Whitespace of the classic locale, which \<open>iss >> word\<close> skips and stops at.\<close>

definition is_space :: "cchar \<Rightarrow> bool" where
  "is_space c \<longleftrightarrow> c = 0x20 \<or> c = 0x09 \<or> c = 0x0A \<or> c = 0x0B \<or> c = 0x0C \<or> c = 0x0D"

text \<open>
  The words that successive \<open>iss >> word\<close> extract: \<open>word\<close> is the word read so far.
\<close>

fun extract_words :: "std_string \<Rightarrow> std_string \<Rightarrow> std_string list" where
  "extract_words word [] = (if word = [] then [] else [word])"
| "extract_words word (c # cs) =
     (if is_space c then (if word = [] then extract_words [] cs else word # extract_words [] cs)
      else extract_words (word @ [c]) cs)"

definition stream_words :: "std_string \<Rightarrow> std_string list" where
  "stream_words text = extract_words [] text"

definition real_offset :: "int \<Rightarrow> int \<Rightarrow> int" where
  "real_offset sz h_offset = s32 (sz - c_div (s32 (sz * h_offset)) 100)"

text \<open>
  One round of the \<open>while (iss >> word)\<close> loop of \<open>split_text_by_size\<close>. The test is
  computed in \<open>size_t\<close>: the lengths are \<open>size_t\<close>, so \<open>real_offset\<close> and
  \<open>max_length\<close> are converted to it.
\<close>

definition place_word :: "int \<Rightarrow> int \<Rightarrow> std_string list \<Rightarrow> std_string \<Rightarrow> std_string list" where
  "place_word real_off max_length result word =
     (if result = [] then [word]
      else
        (let lastElement = last result in
         if u32 (u32 (u32 (int (length lastElement)) * u32 real_off)
                 + u32 (u32 (int (length word)) * u32 real_off) + u32 real_off)
              \<le> u32 max_length
         then butlast result @ [lastElement @ [0x20] @ word]
         else result @ [word]))"

definition split_text_by_size :: "std_string \<Rightarrow> int \<Rightarrow> int \<Rightarrow> int \<Rightarrow> std_string list" where
  "split_text_by_size text sz h_offset max_length =
     foldl (place_word (real_offset sz h_offset) max_length) [] (stream_words text)"

definition get_all_lines :: "std_string \<Rightarrow> int \<Rightarrow> int \<Rightarrow> int \<Rightarrow> std_string list" where
  "get_all_lines text sz h_offset max_length =
     concat (map (\<lambda>t. split_text_by_size t sz h_offset max_length)
                 (split_string_by_newline text))"

fun gcl_loop :: "32 word \<Rightarrow> std_string list \<Rightarrow> int \<Rightarrow> int \<Rightarrow> nat \<Rightarrow> int" where
  "gcl_loop mask0 [] current_char total_chars i = -1"
| "gcl_loop mask0 (l # ls) current_char total_chars i =
     (let utf8_line = get_utf8_char_vector mask0 (c_str l);
          total = s32 (total_chars + int (length utf8_line) + 1)
      in if total > current_char then s32 (int i)
         else gcl_loop mask0 ls current_char total (Suc i))"

definition get_current_line :: "32 word \<Rightarrow> std_string list \<Rightarrow> int \<Rightarrow> int" where
  "get_current_line mask0 lines current_char = gcl_loop mask0 lines current_char 0 0"

text \<open>
  What \<open>get_current_line\<close> accumulates over all the lines: the code points of each
  line plus one. Used to state its properties.
\<close>

definition line_total :: "32 word \<Rightarrow> std_string list \<Rightarrow> int" where
  "line_total mask0 lines =
     (\<Sum>l\<leftarrow>lines. int (length (get_utf8_char_vector mask0 (c_str l))) + 1)"

section \<open>The renderer\<close>

text \<open>
  SDL is an external library. What the text routines need of it is modelled as a log of
  the calls made, the current render target (which \<open>SDL_GetRenderTarget\<close> reads and
  which decides where a clear or a copy draws), and a counter that hands out texture
  handles; \<open>SDL_CreateTexture\<close> is taken to succeed. A null \<open>SDL_Texture*\<close> is
  \<open>None\<close>. \<open>RenderClear d\<close> and \<open>RenderCopy d src srcrect dstrect\<close> record the render
  target \<open>d\<close> they draw into (\<open>None\<close> is the screen). An invocation of the completion
  callback of \<open>draw_typewriter\<close> is logged as \<open>Callback\<close>.
\<close>

type_synonym SDL_Texture = nat

datatype SDL_Color = Color nat nat nat

definition white :: SDL_Color where
  "white = Color 255 255 255"

datatype sdl_call =
    CreateTexture SDL_Texture
  | SetRenderTarget "SDL_Texture option"
  | SetTextureBlendMode "SDL_Texture option"
  | SetRenderDrawColor
  | RenderClear "SDL_Texture option"
  | SetTextureColorMod "SDL_Texture option" SDL_Color
  | RenderCopy "SDL_Texture option" "SDL_Texture option" "SDL_Rect option" "SDL_Rect option"
  | DestroyTexture "SDL_Texture option"
  | Callback

record SDL_Renderer =
  render_target :: "SDL_Texture option"
  next_texture :: SDL_Texture
  calls :: "sdl_call list"

definition SDL_GetRenderTarget :: "SDL_Renderer \<Rightarrow> SDL_Texture option" where
  "SDL_GetRenderTarget r = render_target r"

definition SDL_SetRenderTarget :: "SDL_Texture option \<Rightarrow> SDL_Renderer \<Rightarrow> SDL_Renderer" where
  "SDL_SetRenderTarget t r = r\<lparr>render_target := t, calls := calls r @ [SetRenderTarget t]\<rparr>"

definition SDL_CreateTexture :: "SDL_Renderer \<Rightarrow> SDL_Texture \<times> SDL_Renderer" where
  "SDL_CreateTexture r =
     (next_texture r,
      r\<lparr>next_texture := Suc (next_texture r),
        calls := calls r @ [CreateTexture (next_texture r)]\<rparr>)"

definition SDL_SetTextureBlendMode :: "SDL_Texture option \<Rightarrow> SDL_Renderer \<Rightarrow> SDL_Renderer" where
  "SDL_SetTextureBlendMode t r = r\<lparr>calls := calls r @ [SetTextureBlendMode t]\<rparr>"

definition SDL_SetRenderDrawColor :: "SDL_Renderer \<Rightarrow> SDL_Renderer" where
  "SDL_SetRenderDrawColor r = r\<lparr>calls := calls r @ [SetRenderDrawColor]\<rparr>"

definition SDL_RenderClear :: "SDL_Renderer \<Rightarrow> SDL_Renderer" where
  "SDL_RenderClear r = r\<lparr>calls := calls r @ [RenderClear (render_target r)]\<rparr>"

definition SDL_SetTextureColorMod :: "SDL_Texture option \<Rightarrow> SDL_Color \<Rightarrow> SDL_Renderer \<Rightarrow> SDL_Renderer" where
  "SDL_SetTextureColorMod t c r = r\<lparr>calls := calls r @ [SetTextureColorMod t c]\<rparr>"

definition SDL_RenderCopy ::
  "SDL_Texture option \<Rightarrow> SDL_Rect option \<Rightarrow> SDL_Rect option \<Rightarrow> SDL_Renderer \<Rightarrow> SDL_Renderer" where
  "SDL_RenderCopy src srcrect dstrect r =
     r\<lparr>calls := calls r @ [RenderCopy (render_target r) src srcrect dstrect]\<rparr>"

definition SDL_DestroyTexture :: "SDL_Texture option \<Rightarrow> SDL_Renderer \<Rightarrow> SDL_Renderer" where
  "SDL_DestroyTexture t r = r\<lparr>calls := calls r @ [DestroyTexture t]\<rparr>"

section \<open>The structs\<close>

record CombinedTexture =
  finished :: bool
  texture :: "SDL_Texture option"

record TypeStats =
  current_lines :: "std_string list"
  temp_text :: std_string
  utf8_text :: "codepoint list"
  type_counter :: int
  current_x :: int
  timer :: real
  duration :: real

record FontAtlas =
  atlas_texture :: "SDL_Texture option"
  characters :: "cchar list"

section \<open>Drawing a line of text\<close>

text \<open>
  The block that recurs in every routine:
  \<open>if (SDL_GetRenderTarget(renderer) != nullptr) SDL_SetRenderTarget(renderer, nullptr);
  SDL_RenderCopy(renderer, target->texture, nullptr, nullptr);\<close>
\<close>

definition reset_render_target :: "SDL_Renderer \<Rightarrow> SDL_Renderer" where
  "reset_render_target r =
     (if SDL_GetRenderTarget r \<noteq> None then SDL_SetRenderTarget None r else r)"

definition copy_to_screen :: "SDL_Texture option \<Rightarrow> SDL_Renderer \<Rightarrow> SDL_Renderer" where
  "copy_to_screen tex r = SDL_RenderCopy tex None None (reset_render_target r)"

text \<open>The opening block of \<open>draw_text\<close> and \<open>draw_utf8_text\<close>, for a non-null target.\<close>

definition create_target_texture ::
  "CombinedTexture \<Rightarrow> SDL_Renderer \<Rightarrow> CombinedTexture \<times> SDL_Renderer" where
  "create_target_texture target r =
     (if texture target = None then
        (let (t, r1) = SDL_CreateTexture r;
             r2 = SDL_SetRenderTarget (Some t) r1;
             r3 = SDL_SetTextureBlendMode (Some t) r2;
             r4 = SDL_SetRenderDrawColor r3;
             r5 = SDL_RenderClear r4
         in (target\<lparr>texture := Some t\<rparr>, r5))
      else (target, r))"

text \<open>\<open>size - (h_offset * size / 100)\<close>, the step of the cursor.\<close>

definition glyph_advance :: "int \<Rightarrow> int \<Rightarrow> int" where
  "glyph_advance sz h_offset = s32 (sz - c_div (s32 (h_offset * sz)) 100)"

text \<open>Drawing one glyph through a temporary texture into the target's texture.\<close>

definition compose_glyph ::
  "FontAtlas \<Rightarrow> SDL_Rect \<Rightarrow> SDL_Rect \<Rightarrow> SDL_Color \<Rightarrow> CombinedTexture \<Rightarrow> SDL_Renderer \<Rightarrow> SDL_Renderer" where
  "compose_glyph font_atlas source destiny color target r =
     (let (tmp_target, r1) = SDL_CreateTexture r;
          r2 = SDL_SetRenderTarget (Some tmp_target) r1;
          r3 = SDL_SetTextureBlendMode (Some tmp_target) r2;
          r4 = SDL_SetRenderDrawColor r3;
          r5 = SDL_RenderClear r4;
          r6 = SDL_SetTextureColorMod (Some tmp_target) color r5;
          r7 = SDL_RenderCopy (atlas_texture font_atlas) (Some source) (Some destiny) r6;
          r8 = SDL_SetRenderTarget (texture target) r7;
          r9 = SDL_RenderCopy (Some tmp_target) None None r8;
          r10 = SDL_SetRenderTarget None r9;
          r11 = SDL_RenderCopy (texture target) None None r10
      in SDL_DestroyTexture (Some tmp_target) r11)"

text \<open>The \<open>for (auto c : utf8_text)\<close> loop shared by \<open>draw_text\<close> and \<open>draw_utf8_text\<close>.\<close>

fun draw_chars ::
  "32 word \<Rightarrow> FontAtlas \<Rightarrow> int \<Rightarrow> int \<Rightarrow> int \<Rightarrow> CombinedTexture option \<Rightarrow> SDL_Color \<Rightarrow>
   codepoint list \<Rightarrow> int \<Rightarrow> SDL_Renderer \<Rightarrow> SDL_Renderer" where
  "draw_chars mask0 font_atlas y sz h_offset target color [] cur_x r = r"
| "draw_chars mask0 font_atlas y sz h_offset target color (c # cs) cur_x r =
     (if c = 0x20 then
        draw_chars mask0 font_atlas y sz h_offset target color cs
          (s32 (cur_x + glyph_advance sz h_offset))
          (case target of Some tg \<Rightarrow> copy_to_screen (texture tg) r | None \<Rightarrow> r)
      else
        (let index = get_char_index mask0 c (characters font_atlas) in
         if index \<noteq> -1 then
           (let source = get_atlas_rect_by_index index 512 512 32 32;
                destiny = Rect cur_x y sz sz
            in draw_chars mask0 font_atlas y sz h_offset target color cs
                 (s32 (cur_x + glyph_advance sz h_offset))
                 (case target of
                    Some tg \<Rightarrow> compose_glyph font_atlas source destiny color tg r
                  | None \<Rightarrow>
                      SDL_RenderCopy (atlas_texture font_atlas) (Some source) (Some destiny) r))
         else
           draw_chars mask0 font_atlas y sz h_offset target color cs cur_x
             (case target of Some tg \<Rightarrow> copy_to_screen (texture tg) r | None \<Rightarrow> r)))"

text \<open>
  \<open>draw_utf8_text\<close> and \<open>draw_text\<close> return the \<open>CombinedTexture\<close> behind \<open>target\<close>
  (\<open>None\<close> for a null pointer) and the renderer as the call leaves them.
\<close>

definition draw_utf8_text ::
  "32 word \<Rightarrow> codepoint list \<Rightarrow> FontAtlas \<Rightarrow> SDL_Renderer \<Rightarrow> int \<Rightarrow> int \<Rightarrow> int \<Rightarrow> int \<Rightarrow>
   CombinedTexture option \<Rightarrow> SDL_Color \<Rightarrow> CombinedTexture option \<times> SDL_Renderer" where
  "draw_utf8_text mask0 utf8 font_atlas r x y sz h_offset target color =
     (case target of
        None \<Rightarrow> (None, draw_chars mask0 font_atlas y sz h_offset None color utf8 x r)
      | Some tg \<Rightarrow>
          (let (tg1, r1) = create_target_texture tg r in
           if finished tg1 then (Some tg1, copy_to_screen (texture tg1) r1)
           else (Some (tg1\<lparr>finished := True\<rparr>),
                 reset_render_target
                   (draw_chars mask0 font_atlas y sz h_offset (Some tg1) color utf8 x r1))))"


section \<open>Multi-line text\<close>



section \<open>The typewriter\<close>

datatype error = IndexOutOfRange

text \<open>\<open>v[i]\<close> on a \<open>std::vector\<close> with an \<open>int\<close> index; reading past the end is an error.\<close>

definition vector_at :: "'a list \<Rightarrow> int \<Rightarrow> error + 'a" where
  "vector_at v i = (if 0 \<le> i \<and> i < int (length v) then Inr (v ! nat i) else Inl IndexOutOfRange)"

text \<open>
  The statement \<open>if (stats.type_counter > 0 && current_line > get_current_line(lines,
  stats.type_counter - 1)) stats.current_x = rect.x;\<close>
\<close>

definition line_break_reset :: "32 word \<Rightarrow> std_string list \<Rightarrow> SDL_Rect \<Rightarrow> TypeStats \<Rightarrow> TypeStats" where
  "line_break_reset mask0 lines rect stats =
     (let current_line = get_current_line mask0 lines (type_counter stats) in
      if type_counter stats > 0 \<and>
         current_line > get_current_line mask0 lines (type_counter stats - 1)
      then stats\<lparr>current_x := rect_x rect\<rparr> else stats)"

text \<open>
  The lazy decoding at the head of \<open>draw_typewriter\<close>:
  \<open>if (stats.utf8_text.size() == 0) stats.utf8_text = get_utf8_char_vector(tmptext.c_str());\<close>
\<close>

definition load_utf8_text :: "32 word \<Rightarrow> std_string \<Rightarrow> TypeStats \<Rightarrow> TypeStats" where
  "load_utf8_text mask0 text stats =
     (let tmptext = remove_new_lines text in
      if length (utf8_text stats) = 0
      then stats\<lparr>utf8_text := get_utf8_char_vector mask0 (c_str tmptext)\<rparr>
      else stats)"

text \<open>
  One call of \<open>draw_typewriter\<close>. \<open>target\<close> is dereferenced on every path, so it is
  not a null pointer; \<open>callback\<close> is \<open>True\<close> when a function pointer is supplied. The
  result is the stats, the target and the renderer as the call leaves them.
\<close>

definition draw_typewriter ::
  "32 word \<Rightarrow> std_string \<Rightarrow> FontAtlas \<Rightarrow> SDL_Renderer \<Rightarrow> SDL_Rect \<Rightarrow> CombinedTexture \<Rightarrow>
   TypeStats \<Rightarrow> int \<Rightarrow> bool \<Rightarrow> int \<Rightarrow> int \<Rightarrow> error + (TypeStats \<times> CombinedTexture \<times> SDL_Renderer)" where
  "draw_typewriter mask0 text font_atlas r rect target stats0 sz callback h_offset v_offset =
     (let lines = get_all_lines text sz h_offset (rect_w rect);
          tmptext = remove_new_lines text;
          stats = load_utf8_text mask0 text stats0
      in
      if u32 (type_counter stats) > u32 (int (length (utf8_text stats)) - 1) then
        Inr (stats, target, copy_to_screen (texture target) r)
      else if timer stats > duration stats then
        (let current_line = get_current_line mask0 lines (type_counter stats);
             stats1 = line_break_reset mask0 lines rect stats
         in case vector_at (utf8_text stats1) (type_counter stats1) of
              Inl e \<Rightarrow> Inl e
            | Inr cp \<Rightarrow>
                if get_char_index mask0 cp (characters font_atlas) = -1 \<and>
                   cp \<noteq> hd (get_utf8_char_vector mask0 [0x20, 0x20])
                then
                  Inr (stats1\<lparr>type_counter := s32 (type_counter stats1 + 1)\<rparr>, target,
                       copy_to_screen (texture target) r)
                else
                  (let (tgo, r1) =
                         draw_utf8_text mask0 [cp] font_atlas r (current_x stats1)
                           (s32 (rect_y rect + s32 (current_line * c_div (s32 (sz * v_offset)) 100)))
                           sz h_offset (Some (target\<lparr>finished := False\<rparr>)) white;
                       target1 = (case tgo of Some tg \<Rightarrow> tg | None \<Rightarrow> target\<lparr>finished := False\<rparr>);
                       stats2 = stats1\<lparr>current_x := s32 (current_x stats1 + glyph_advance sz h_offset),
                                      timer := 0,
                                      type_counter := s32 (type_counter stats1 + 1)\<rparr>;
                       r2 = (if u32 (type_counter stats2) > u32 (int (length tmptext) - 1) \<and> callback
                             then r1\<lparr>calls := calls r1 @ [Callback]\<rparr> else r1)
                   in Inr (stats2, target1, r2)))
      else Inr (stats, target, copy_to_screen (texture target) r))"

text \<open>
  The frame loop of the demo program: each frame calls \<open>draw_typewriter\<close> and then adds
  the frame's time to \<open>stats.timer\<close>. One list element is one frame's time.
\<close>

fun typewriter_frames ::
  "32 word \<Rightarrow> std_string \<Rightarrow> FontAtlas \<Rightarrow> SDL_Rect \<Rightarrow> int \<Rightarrow> bool \<Rightarrow> int \<Rightarrow> int \<Rightarrow> real list \<Rightarrow>
   TypeStats \<times> CombinedTexture \<times> SDL_Renderer \<Rightarrow> error + (TypeStats \<times> CombinedTexture \<times> SDL_Renderer)" where
  "typewriter_frames mask0 text font_atlas rect sz callback h_offset v_offset [] st = Inr st"
| "typewriter_frames mask0 text font_atlas rect sz callback h_offset v_offset (d # ds) (stats, target, r) =
     (case draw_typewriter mask0 text font_atlas r rect target stats sz callback h_offset v_offset of
        Inl e \<Rightarrow> Inl e
      | Inr (stats1, target1, r1) \<Rightarrow>
          typewriter_frames mask0 text font_atlas rect sz callback h_offset v_offset ds
            (stats1\<lparr>timer := timer stats1 + d\<rparr>, target1, r1))"

definition callback_count :: "SDL_Renderer \<Rightarrow> nat" where
  "callback_count r = length (filter (\<lambda>e. e = Callback) (calls r))"

section \<open>Sequences of draw calls on one target\<close>







text \<open>
  Two predicates used to state the properties of \<open>split_text_by_size\<close>: a word as
  the stream extracts it (not empty, no whitespace), and a line that is either one of the
  words \<open>T\<close> on its own or passes the width test of the source in its \<open>size_t\<close>
  arithmetic.
\<close>

definition token_like :: "std_string \<Rightarrow> bool" where
  "token_like w \<longleftrightarrow> w \<noteq> [] \<and> (\<forall>c \<in> set w. \<not> is_space c)"

definition line_ok :: "int \<Rightarrow> int \<Rightarrow> std_string list \<Rightarrow> std_string \<Rightarrow> bool" where
  "line_ok ro mx T l \<longleftrightarrow> l \<in> set T \<or> u32 (int (length l) * ro) \<le> u32 mx"

section \<open>The decoder on ASCII and on two-byte sequences\<close>

lemma ascii_top_bit: "(c :: cchar) < 0x80 \<Longrightarrow> \<not> bit c 7"
proof -
  assume "c < 0x80"
  then have "c < 2 ^ 7" by simp
  then have "c AND mask 7 = c" by (rule less_mask_eq)
  then have "bit c 7 = bit (c AND mask 7) 7" by simp
  then show ?thesis by (simp add: bit_simps)
qed

lemma and_top_bit: "(c AND m) = k \<Longrightarrow> bit (k :: cchar) 7 \<Longrightarrow> bit (c :: cchar) 7"
  by (auto simp: bit_and_iff)

lemma start_top_bit: "is_utf8_start c \<Longrightarrow> bit c 7"
  unfolding is_utf8_start_def
  by (elim disjE) (erule and_top_bit, simp)+

lemma cont_top_bit: "is_utf_cont c \<Longrightarrow> bit c 7"
  unfolding is_utf_cont_def by (erule and_top_bit) simp

lemma cont_not_start: "is_utf_cont c \<Longrightarrow> \<not> is_utf8_start c"
proof
  assume c: "is_utf_cont c" and s: "is_utf8_start c"
  from c have "bit (c AND 0xC0) 6 = bit (0x80 :: cchar) 6"
    by (simp only: is_utf_cont_def)
  then have n6: "\<not> bit c 6" by (simp add: bit_and_iff)
  have "bit c 6" if "(c AND m) = k" "bit k 6" for m k :: cchar
    using that by (auto simp: bit_and_iff)
  from s this[of "0xE0" "0xC0"] this[of "0xF0" "0xE0"] this[of "0xF8" "0xF0"]
  have "bit c 6" unfolding is_utf8_start_def by auto
  with n6 show False by simp
qed

lemma positive_char_to_int: "\<not> bit (c :: cchar) 7 \<Longrightarrow> char_to_int c = ucast c"
  unfolding char_to_int_def
proof (rule bit_word_eqI)
  fix n assume h: "\<not> bit c 7" and n: "n < LENGTH(32)"
  have "bit c n \<Longrightarrow> n < 7" using bit_imp_le_length[of c n] h by (cases "n = 7") auto
  then show "bit (scast c :: 32 word) n = bit (ucast c :: 32 word) n"
    using h by (auto simp add: bit_simps min_def)
qed

lemma utf8_loop_ascii:
  "\<forall>c \<in> set text. c < 0x80 \<Longrightarrow> utf8_loop text t off m = map ucast text"
proof (induction "text" arbitrary: t off m)
  case Nil
  show ?case by simp
next
  case (Cons c cs)
  then have c: "\<not> bit c 7" by (simp add: ascii_top_bit)
  then have "\<not> is_utf8_start c" "\<not> is_utf_cont c"
    using start_top_bit cont_top_bit by blast+
  with Cons c show ?case by (simp add: positive_char_to_int)
qed

lemma mask_ff0000ff: "(0xff0000ff :: 32 word) = push_bit 24 (mask 8) OR mask 8"
  by (simp add: mask_eq_exp_minus_1 push_bit_eq_mult)

lemma mask_ffff0000: "(0xffff0000 :: 32 word) = push_bit 16 (mask 16)"
  by (simp add: mask_eq_exp_minus_1 push_bit_eq_mult)

lemma two_byte_value:
  assumes "bit (l :: cchar) 7" "bit (c :: cchar) 7"
  shows "((0 OR push_bit 8 (scast l :: 32 word)) OR (scast c AND 0xff0000ff)) XOR 0xffff0000
       = push_bit 8 (ucast l) OR ucast c"
proof (rule bit_word_eqI)
  fix n assume n: "n < LENGTH(32)"
  have bl: "bit l (n - 8) \<Longrightarrow> n - 8 < 8" using bit_imp_le_length[of l] by simp
  have bc: "bit c n \<Longrightarrow> n < 8" using bit_imp_le_length[of c] by simp
  consider "n < 7" | "n = 7" | "8 \<le> n" "n < 15" | "n = 15" | "16 \<le> n" by linarith
  then show "bit (((0 OR push_bit 8 (scast l :: 32 word)) OR (scast c AND 0xff0000ff)) XOR 0xffff0000) n
       = bit (push_bit 8 (ucast l) OR ucast c :: 32 word) n"
    unfolding mask_ff0000ff mask_ffff0000
    using assms n bl bc
    by cases (auto simp add: bit_simps min_def)
qed

text \<open>
  C7. Decoding an ASCII-only C string of length N (every byte below 0x80) gives exactly
  N code points, and the i-th code point is the widened value of the i-th byte.
\<close>

theorem ascii_decodes_bytewise:
  assumes "\<forall>c \<in> set text. c < 0x80"
  shows "length (get_utf8_char_vector mask0 text) = length text \<and>
         (\<forall>i < length text. get_utf8_char_vector mask0 text ! i = ucast (text ! i))"
  using utf8_loop_ascii [OF assms] by (simp add: get_utf8_char_vector_def)

theorem ascii_decodes_bytewise_witness:
  "(0x48 :: cchar) < 0x80 \<and> (0x69 :: cchar) < 0x80 \<and> (0x21 :: cchar) < 0x80 \<and>
   length (get_utf8_char_vector 0 [0x48, 0x69, 0x21]) = 3 \<and>
   get_utf8_char_vector 0 [0x48, 0x69, 0x21] = [0x48, 0x69, 0x21]"
proof -
  have h: "\<forall>c \<in> set [0x48, 0x69, 0x21 :: cchar]. c < 0x80" by simp
  from ascii_decodes_bytewise [OF h, of 0] show ?thesis
    by (simp add: All_less_Suc numeral_3_eq_3 list_eq_iff_nth_eq)
qed

text \<open>
  C8. A string that is one two-byte sequence (a lead byte of the form 110xxxxx followed
  by one continuation byte 10xxxxxx) decodes to exactly one code point. Its value is the
  lead byte in bits 8 to 15 and the continuation byte in bits 0 to 7, whatever the
  uninitialised \<open>mask\<close> held, so every decode of the same input gives the same
  32-bit value.
\<close>

theorem two_byte_decodes_to_one:
  assumes "(l AND 0xE0) = 0xC0" and "(c AND 0xC0) = 0x80"
  shows "get_utf8_char_vector mask0 [l, c] = [push_bit 8 (ucast l) OR ucast c]"
proof -
  from assms have s: "is_utf8_start l" and k: "is_utf_cont c"
    by (simp_all add: is_utf8_start_def is_utf_cont_def)
  from k have ns: "\<not> is_utf8_start c" by (rule cont_not_start)
  have "get_utf8_char_vector mask0 [l, c]
      = [((0 OR push_bit 8 (scast l :: 32 word)) OR (scast c AND 0xff0000ff)) XOR 0xffff0000]"
    using s k ns assms(1)
    by (simp add: get_utf8_char_vector_def char_to_int_def Let_def)
  also have "\<dots> = [push_bit 8 (ucast l) OR ucast c]"
    using two_byte_value [OF start_top_bit [OF s] cont_top_bit [OF k]] by simp
  finally show ?thesis .
qed

theorem two_byte_decodes_to_one_witness:
  "((0xC3 :: cchar) AND 0xE0) = 0xC0 \<and> ((0xA9 :: cchar) AND 0xC0) = 0x80 \<and>
   get_utf8_char_vector 0 [0xC3, 0xA9] = [0xC3A9] \<and>
   get_utf8_char_vector 0xdeadbeef [0xC3, 0xA9] = [0xC3A9]"
proof -
  have h1: "((0xC3 :: cchar) AND 0xE0) = 0xC0" by simp
  have h2: "((0xA9 :: cchar) AND 0xC0) = 0x80" by simp
  have v: "push_bit 8 (ucast (0xC3 :: cchar)) OR ucast (0xA9 :: cchar) = (0xC3A9 :: 32 word)"
    by simp
  from two_byte_decodes_to_one [OF h1 h2, of 0]
       two_byte_decodes_to_one [OF h1 h2, of "0xdeadbeef"] h1 h2 v
  show ?thesis by simp
qed

section \<open>Mapping a character index to its line\<close>

lemma s32_id: "- (2 ^ 31) \<le> i \<Longrightarrow> i < 2 ^ 31 \<Longrightarrow> s32 i = i"
  by (simp add: s32_def)

lemma line_total_Cons:
  "line_total m (l # ls) = int (length (get_utf8_char_vector m (c_str l))) + 1 + line_total m ls"
  by (simp add: line_total_def)

lemma line_total_ge: "int (length ls) \<le> line_total m ls"
  by (induction ls) (auto simp: line_total_def)

lemma gcl_loop_range:
  "0 \<le> t \<Longrightarrow> int i \<le> t \<Longrightarrow> t + line_total m ls < 2 ^ 31 \<Longrightarrow>
   gcl_loop m ls c t i = -1 \<or> int i \<le> gcl_loop m ls c t i"
proof (induction ls arbitrary: t i)
  case Nil
  show ?case by simp
next
  case (Cons l ls)
  let ?n = "int (length (get_utf8_char_vector m (c_str l)))"
  from Cons.prems have t': "s32 (t + ?n + 1) = t + ?n + 1"
    using line_total_ge [of ls m] by (intro s32_id) (auto simp: line_total_Cons)
  from Cons.prems have i: "s32 (int i) = int i"
    using line_total_ge [of ls m] by (intro s32_id) (auto simp: line_total_Cons)
  from Cons.prems line_total_ge [of ls m]
  have "gcl_loop m ls c (t + ?n + 1) (Suc i) = -1 \<or> int (Suc i) \<le> gcl_loop m ls c (t + ?n + 1) (Suc i)"
    by (intro Cons.IH) (auto simp: line_total_Cons)
  then show ?case by (auto simp: Let_def t' i)
qed

lemma gcl_loop_not_found:
  "0 \<le> t \<Longrightarrow> int i \<le> t \<Longrightarrow> t + line_total m ls < 2 ^ 31 \<Longrightarrow>
   gcl_loop m ls c t i = -1 \<longleftrightarrow> ls = [] \<or> t + line_total m ls \<le> c"
proof (induction ls arbitrary: t i)
  case Nil
  show ?case by (simp add: line_total_def)
next
  case (Cons l ls)
  let ?n = "int (length (get_utf8_char_vector m (c_str l)))"
  from Cons.prems have t': "s32 (t + ?n + 1) = t + ?n + 1"
    using line_total_ge [of ls m] by (intro s32_id) (auto simp: line_total_Cons)
  from Cons.prems have i: "s32 (int i) = int i"
    using line_total_ge [of ls m] by (intro s32_id) (auto simp: line_total_Cons)
  from Cons.prems line_total_ge [of ls m]
  have "gcl_loop m ls c (t + ?n + 1) (Suc i) = -1 \<longleftrightarrow> ls = [] \<or> (t + ?n + 1) + line_total m ls \<le> c"
    by (intro Cons.IH) (auto simp: line_total_Cons)
  then show ?case using line_total_ge [of ls m] Cons.prems
    by (auto simp: Let_def t' i line_total_Cons line_total_def)
qed

lemma gcl_loop_mono:
  "0 \<le> t \<Longrightarrow> int i \<le> t \<Longrightarrow> t + line_total m ls < 2 ^ 31 \<Longrightarrow> c1 \<le> c2 \<Longrightarrow>
   gcl_loop m ls c2 t i \<noteq> -1 \<Longrightarrow> gcl_loop m ls c1 t i \<le> gcl_loop m ls c2 t i"
proof (induction ls arbitrary: t i)
  case Nil
  then show ?case by simp
next
  case (Cons l ls)
  let ?n = "int (length (get_utf8_char_vector m (c_str l)))"
  let ?t = "t + ?n + 1"
  from Cons.prems have t': "s32 ?t = ?t"
    using line_total_ge [of ls m] by (intro s32_id) (auto simp: line_total_Cons)
  from Cons.prems have i: "s32 (int i) = int i"
    using line_total_ge [of ls m] by (intro s32_id) (auto simp: line_total_Cons)
  have pre: "0 \<le> ?t" "int (Suc i) \<le> ?t" "?t + line_total m ls < 2 ^ 31"
    using Cons.prems by (auto simp: line_total_Cons)
  show ?case
  proof (cases "?t > c2")
    case True
    with Cons.prems show ?thesis by (simp add: Let_def t' i)
  next
    case False
    with Cons.prems have nf: "gcl_loop m ls c2 ?t (Suc i) \<noteq> -1" by (simp add: Let_def t')
    show ?thesis
    proof (cases "?t > c1")
      case True
      from gcl_loop_range [OF pre, of c2] nf have "int (Suc i) \<le> gcl_loop m ls c2 ?t (Suc i)" by simp
      with True False show ?thesis by (simp add: Let_def t' i)
    next
      case c1: False
      from Cons.IH [OF pre Cons.prems(4) nf] c1 False show ?thesis by (simp add: Let_def t')
    qed
  qed
qed

text \<open>
  C4 (amended). Provided the accumulated total stays within \<open>int\<close>,
  \<open>get_current_line\<close> returns -1 exactly when there are no lines or the index is at
  least the sum over the lines of (code points + 1); and it is monotone over the indices
  for which a line is found: if a line is found for \<open>c2\<close> and \<open>c1 \<le> c2\<close>, the result
  for \<open>c1\<close> is not greater.
\<close>

theorem get_current_line_found_monotone:
  assumes "line_total mask0 lines < 2 ^ 31"
  shows "(get_current_line mask0 lines c = -1 \<longleftrightarrow> lines = [] \<or> line_total mask0 lines \<le> c) \<and>
         (c1 \<le> c2 \<and> get_current_line mask0 lines c2 \<noteq> -1 \<longrightarrow>
            get_current_line mask0 lines c1 \<le> get_current_line mask0 lines c2)"
  using assms gcl_loop_not_found [of 0 0 mask0 lines c] gcl_loop_mono [of 0 0 mask0 lines c1 c2]
  by (simp add: get_current_line_def)

lemmas decode_eval =
  get_utf8_char_vector_def c_str_def is_utf8_start_def is_utf_cont_def char_to_int_def

theorem get_current_line_found_monotone_witness:
  "line_total 0 [[0x61, 0x62], [0x63]] < 2 ^ 31 \<and>
   get_current_line 0 [[0x61, 0x62], [0x63]] 5 = -1 \<and>
   line_total 0 [[0x61, 0x62], [0x63]] \<le> 5 \<and>
   get_current_line 0 [[0x61, 0x62], [0x63]] 3 \<noteq> -1 \<and>
   get_current_line 0 [[0x61, 0x62], [0x63]] 1 \<le> get_current_line 0 [[0x61, 0x62], [0x63]] 3"
proof -
  have t: "line_total 0 [[0x61, 0x62], [0x63]] = 5"
    by (simp add: line_total_def decode_eval)
  have f: "get_current_line 0 [[0x61, 0x62], [0x63]] 3 = 1"
    by (simp add: get_current_line_def decode_eval s32_def)
  from t have h: "line_total 0 [[0x61, 0x62], [0x63]] < 2 ^ 31" by simp
  from get_current_line_found_monotone [OF h, of 5 1 3] t f show ?thesis by simp
qed

text \<open>
  C4 as stated fails twice. For the single line "ab", index 0 is on line 0 and the larger
  index 3 gives -1, so the results decrease. For the lines "a", "b" the total character
  count is 2, index 3 exceeds it, and the result is line 1, not -1.
\<close>

theorem get_current_line_counterexample:
  "\<not> (get_current_line 0 [[0x61, 0x62]] 0 \<le> get_current_line 0 [[0x61, 0x62]] 3) \<and>
   int (length (get_utf8_char_vector 0 [0x61]) + length (get_utf8_char_vector 0 [0x62])) < 3 \<and>
   get_current_line 0 [[0x61], [0x62]] 3 = 1"
  by (simp add: get_current_line_def decode_eval s32_def)

section \<open>Width-constrained wrap\<close>

lemma extract_words_token:
  "\<forall>c \<in> set w. \<not> is_space c \<Longrightarrow> extract_words a w = (if a @ w = [] then [] else [a @ w])"
  by (induction w arbitrary: a) auto

lemma extract_words_token_like:
  "\<forall>c \<in> set a. \<not> is_space c \<Longrightarrow> \<forall>w \<in> set (extract_words a xs). token_like w"
proof (induction xs arbitrary: a)
  case Nil
  then show ?case by (auto simp: token_like_def)
next
  case (Cons c cs)
  from Cons.prems have a: "a \<noteq> [] \<Longrightarrow> token_like a" by (simp add: token_like_def)
  have e: "\<forall>w \<in> set (extract_words [] cs). token_like w" by (rule Cons.IH) simp
  show ?case
  proof (cases "is_space c")
    case True
    with a e show ?thesis by simp
  next
    case False
    with Cons.prems have "\<forall>w \<in> set (extract_words (a @ [c]) cs). token_like w"
      by (intro Cons.IH) simp
    with False show ?thesis by simp
  qed
qed

lemma stream_words_token_like: "w \<in> set (stream_words t) \<Longrightarrow> token_like w"
  using extract_words_token_like [of "[]" t] by (simp add: stream_words_def)

lemma extract_words_join:
  "token_like w \<Longrightarrow> extract_words a (xs @ 0x20 # w) = extract_words a xs @ [w]"
proof (induction xs arbitrary: a)
  case Nil
  then show ?case by (simp add: extract_words_token token_like_def is_space_def)
next
  case (Cons c cs)
  then show ?case by simp
qed

lemma stream_words_join:
  "token_like w \<Longrightarrow> stream_words (l @ 0x20 # w) = stream_words l @ [w]"
  by (simp add: stream_words_def extract_words_join)

lemma stream_words_single: "token_like w \<Longrightarrow> stream_words w = [w]"
  by (simp add: stream_words_def extract_words_token token_like_def)

lemma place_word_words:
  "token_like w \<Longrightarrow>
   concat (map stream_words (place_word ro mx acc w)) = concat (map stream_words acc) @ [w]"
proof (cases "acc = []")
  case True
  assume "token_like w"
  with True show ?thesis by (simp add: place_word_def stream_words_single)
next
  case False
  assume w: "token_like w"
  from False have acc: "acc = butlast acc @ [last acc]" by simp
  have "concat (map stream_words acc) = concat (map stream_words (butlast acc)) @ stream_words (last acc)"
    by (subst acc) simp
  with w False show ?thesis
    by (simp add: place_word_def Let_def stream_words_single stream_words_join)
qed

lemma foldl_place_word_words:
  "\<forall>w \<in> set ws. token_like w \<Longrightarrow>
   concat (map stream_words (foldl (place_word ro mx) acc ws)) = concat (map stream_words acc) @ ws"
  by (induction ws arbitrary: acc) (simp_all add: place_word_words)

lemma u32_check:
  "u32 (u32 (u32 a * u32 r) + u32 (u32 b * u32 r) + u32 r) = u32 ((a + 1 + b) * r)"
proof -
  have e: "(a + 1 + b) * r = a * r + b * r + r" by (simp add: algebra_simps)
  have "(x mod m + y mod m + r) mod m = (x + y + r) mod m" for x y m :: int
    by (metis mod_add_eq mod_add_left_eq)
  then show ?thesis unfolding u32_def e by (simp add: mod_simps)
qed

lemma place_word_within:
  assumes "\<forall>l \<in> set acc. line_ok ro mx T l" "w \<in> set T"
  shows "\<forall>l \<in> set (place_word ro mx acc w). line_ok ro mx T l"
proof (cases "acc = []")
  case True
  with assms show ?thesis by (simp add: place_word_def line_ok_def)
next
  case False
  have b: "\<forall>l \<in> set (butlast acc). line_ok ro mx T l"
    using assms(1) by (meson in_set_butlastD)
  have wl: "line_ok ro mx T w" using assms(2) by (simp add: line_ok_def)
  have len: "int (length (last acc @ 0x20 # w)) = int (length (last acc)) + 1 + int (length w)"
    by simp
  have j: "line_ok ro mx T (last acc @ 0x20 # w)"
    if "u32 (u32 (u32 (int (length (last acc))) * u32 ro)
             + u32 (u32 (int (length w)) * u32 ro) + u32 ro) \<le> u32 mx"
    using that unfolding line_ok_def len u32_check by simp
  from False b wl j assms(1) show ?thesis
    by (simp add: place_word_def Let_def)
qed

lemma foldl_place_word_within:
  "\<forall>l \<in> set acc. line_ok ro mx T l \<Longrightarrow> set ws \<subseteq> set T \<Longrightarrow>
   \<forall>l \<in> set (foldl (place_word ro mx) acc ws). line_ok ro mx T l"
proof (induction ws arbitrary: acc)
  case Nil
  then show ?case by simp
next
  case (Cons w ws)
  from Cons.prems have "\<forall>l \<in> set (place_word ro mx acc w). line_ok ro mx T l"
    by (intro place_word_within) auto
  with Cons show ?case by simp
qed

lemma real_offset_plain:
  assumes "0 \<le> sz" "sz < 2 ^ 31" "0 \<le> h" "h \<le> 100" "sz * h < 2 ^ 31"
  shows "real_offset sz h = sz - sz * h div 100" "0 \<le> real_offset sz h"
proof -
  have p: "0 \<le> sz * h" using assms by simp
  then have a: "s32 (sz * h) = sz * h" using assms by (simp add: s32_def)
  have d: "c_div (sz * h) 100 = sz * h div 100" using p by (simp add: c_div_def)
  have "sz * h \<le> sz * 100" using assms by (intro mult_left_mono) auto
  then have le: "sz * h div 100 \<le> sz" by simp
  have ge: "0 \<le> sz * h div 100" using p by simp
  have "s32 (sz - sz * h div 100) = sz - sz * h div 100"
    using le ge assms by (simp add: s32_def)
  then show "real_offset sz h = sz - sz * h div 100" by (simp add: real_offset_def a d)
  then show "0 \<le> real_offset sz h" using le by simp
qed

text \<open>
  C3 (amended). For every text, size, h_offset and max_length, every line break of
  \<open>split_text_by_size\<close> falls on whitespace of the input: the words of the lines, in
  order, are the words of the input. With effective_advance the value the code computes
  for \<open>size - (size * h_offset / 100)\<close> in its 32-bit \<open>int\<close> arithmetic: if
  effective_advance and max_length are not negative, every line that is not a single
  word of the input and whose length * effective_advance stays below 2^32 (where the
  \<open>size_t\<close> arithmetic of the test does not wrap) satisfies
  length * effective_advance \<le> max_length; a line that holds one word alone is emitted
  whatever its length. For a non-negative size, h_offset in 0..100 and
  size * h_offset below 2^31 (no \<open>int\<close> overflow in the product) the effective_advance
  is exactly size - size * h_offset / 100 in integer division, and is not negative.
\<close>

theorem split_text_by_size_bound:
  "concat (map stream_words (split_text_by_size text sz h_offset max_length)) = stream_words text \<and>
   (line \<in> set (split_text_by_size text sz h_offset max_length) \<and>
    0 \<le> real_offset sz h_offset \<and> 0 \<le> max_length \<and> max_length < 2 ^ 31 \<and>
    int (length line) * real_offset sz h_offset < 2 ^ 32 \<longrightarrow>
      line \<in> set (stream_words text) \<or>
      int (length line) * real_offset sz h_offset \<le> max_length) \<and>
   (0 \<le> sz \<and> sz < 2 ^ 31 \<and> 0 \<le> h_offset \<and> h_offset \<le> 100 \<and> sz * h_offset < 2 ^ 31 \<longrightarrow>
      real_offset sz h_offset = sz - sz * h_offset div 100 \<and> 0 \<le> real_offset sz h_offset)"
proof (intro conjI impI)
  let ?ro = "real_offset sz h_offset"
  show "concat (map stream_words (split_text_by_size text sz h_offset max_length)) = stream_words text"
    using foldl_place_word_words [of "stream_words text" ?ro max_length "[]"] stream_words_token_like
    by (simp add: split_text_by_size_def)
next
  let ?ro = "real_offset sz h_offset"
  assume h: "line \<in> set (split_text_by_size text sz h_offset max_length) \<and>
    0 \<le> ?ro \<and> 0 \<le> max_length \<and> max_length < 2 ^ 31 \<and> int (length line) * ?ro < 2 ^ 32"
  have "\<forall>l \<in> set (foldl (place_word ?ro max_length) [] (stream_words text)).
          line_ok ?ro max_length (stream_words text) l"
    by (intro foldl_place_word_within) auto
  with h have w: "line_ok ?ro max_length (stream_words text) line"
    by (simp add: split_text_by_size_def)
  have nn: "0 \<le> int (length line) * ?ro" using h by simp
  have "u32 (int (length line) * ?ro) = int (length line) * ?ro"
    using nn h by (simp add: u32_def)
  moreover have "u32 max_length = max_length" using h by (simp add: u32_def)
  ultimately show "line \<in> set (stream_words text) \<or> int (length line) * ?ro \<le> max_length"
    using w by (simp add: line_ok_def)
next
  assume g: "0 \<le> sz \<and> sz < 2 ^ 31 \<and> 0 \<le> h_offset \<and> h_offset \<le> 100 \<and> sz * h_offset < 2 ^ 31"
  then show "real_offset sz h_offset = sz - sz * h_offset div 100"
    by (intro real_offset_plain) auto
next
  assume g: "0 \<le> sz \<and> sz < 2 ^ 31 \<and> 0 \<le> h_offset \<and> h_offset \<le> 100 \<and> sz * h_offset < 2 ^ 31"
  then show "0 \<le> real_offset sz h_offset"
    by (intro real_offset_plain) auto
qed

theorem split_text_by_size_bound_witness:
  "(0::int) \<le> 10 \<and> (10::int) < 2 ^ 31 \<and> (0::int) \<le> 50 \<and> (50::int) \<le> 100 \<and>
   (10::int) * 50 < 2 ^ 31 \<and> (0::int) \<le> 25 \<and> (25::int) < 2 ^ 31 \<and>
   real_offset 10 50 = 10 - 10 * 50 div 100 \<and> 0 \<le> real_offset 10 50 \<and>
   split_text_by_size [0x61, 0x62, 0x20, 0x63, 0x64, 0x20, 0x65, 0x66, 0x67, 0x68] 10 50 25
     = [[0x61, 0x62, 0x20, 0x63, 0x64], [0x65, 0x66, 0x67, 0x68]] \<and>
   int (length [0x61, 0x62, 0x20, 0x63, 0x64 :: cchar]) * real_offset 10 50 < 2 ^ 32 \<and>
   int (length [0x61, 0x62, 0x20, 0x63, 0x64 :: cchar]) * real_offset 10 50 \<le> 25 \<and>
   concat (map stream_words
     (split_text_by_size [0x61, 0x62, 0x20, 0x63, 0x64, 0x20, 0x65, 0x66, 0x67, 0x68] 10 50 25))
     = stream_words [0x61, 0x62, 0x20, 0x63, 0x64, 0x20, 0x65, 0x66, 0x67, 0x68]"
proof -
  let ?t = "[0x61, 0x62, 0x20, 0x63, 0x64, 0x20, 0x65, 0x66, 0x67, 0x68] :: std_string"
  let ?l = "[0x61, 0x62, 0x20, 0x63, 0x64] :: std_string"
  have w: "stream_words ?t = [[0x61, 0x62], [0x63, 0x64], [0x65, 0x66, 0x67, 0x68]]"
    by (simp add: stream_words_def is_space_def)
  have g: "(0::int) \<le> 10 \<and> (10::int) < 2 ^ 31 \<and> (0::int) \<le> 50 \<and> (50::int) \<le> 100 \<and>
           (10::int) * 50 < 2 ^ 31"
    by simp
  note b = split_text_by_size_bound [of ?t 10 50 25 ?l]
  from b g have r: "real_offset 10 50 = 5" "0 \<le> real_offset 10 50"
    by simp_all
  have e: "split_text_by_size ?t 10 50 25 = [?l, [0x65, 0x66, 0x67, 0x68]]"
    by (simp add: split_text_by_size_def w r place_word_def u32_def)
  have nw: "?l \<notin> set (stream_words ?t)" by (simp add: w)
  from b e r nw have "int (length ?l) * real_offset 10 50 \<le> 25"
    by simp
  with b e r w show ?thesis by simp
qed

text \<open>
  The bound is on the advance as the code computes it. When \<open>size * h_offset\<close> overflows
  \<open>int\<close> the computed advance is not size - size * h_offset / 100: for size 2^30 and
  h_offset 4 the product wraps to 0 and the advance is 2^30, so "ab c" with max_length 5 is
  joined into one line (4 * 2^30 wraps to 0 in the test), although 4 times the exact
  value 1030792152 is below 2^32 and above 5.
\<close>

lemma split_text_by_size_int_overflow:
  "real_offset (2 ^ 30) 4 = 2 ^ 30 \<and>
   split_text_by_size [0x61, 0x62, 0x20, 0x63] (2 ^ 30) 4 5 = [[0x61, 0x62, 0x20, 0x63]] \<and>
   (2 ^ 30 - 2 ^ 30 * 4 div 100 :: int) = 1030792152 \<and>
   (4 * 1030792152 :: int) < 2 ^ 32 \<and> \<not> (4 * 1030792152 :: int) \<le> 5"
proof -
  have r: "real_offset 1073741824 4 = 1073741824"
    by (simp add: real_offset_def s32_def c_div_def)
  have "split_text_by_size [0x61, 0x62, 0x20, 0x63] 1073741824 4 5 = [[0x61, 0x62, 0x20, 0x63]]"
    by (simp add: split_text_by_size_def r stream_words_def is_space_def place_word_def u32_def
        Let_def)
  with r show ?thesis by simp
qed

text \<open>
  C3 as stated fails for a word that is wider than the line: "abcdef" with size 10,
  h_offset 0 and max_length 20 comes back as the single line "abcdef", 60 wide.
\<close>

theorem split_text_by_size_counterexample:
  "split_text_by_size [0x61, 0x62, 0x63, 0x64, 0x65, 0x66] 10 0 20
     = [[0x61, 0x62, 0x63, 0x64, 0x65, 0x66]] \<and>
   \<not> (int (length [0x61, 0x62, 0x63, 0x64, 0x65, 0x66 :: cchar]) * (10 - 10 * 0 div 100) \<le> 20)"
  by (simp add: split_text_by_size_def stream_words_def is_space_def place_word_def)

section \<open>The render cache\<close>












section \<open>The typewriter tick\<close>

lemma gcl_first_line:
  assumes "lines \<noteq> []" "line_total m lines < 2 ^ 31" "c \<le> 0"
  shows "get_current_line m lines c = 0"
proof -
  from assms(1) obtain l ls where l: "lines = l # ls" by (cases lines) auto
  let ?n = "int (length (get_utf8_char_vector m (c_str l)))"
  have "?n + 1 < 2 ^ 31" using assms(2) line_total_ge [of ls m] by (simp add: l line_total_Cons)
  then have "s32 (?n + 1) = ?n + 1" by (intro s32_id) auto
  with assms(3) show ?thesis by (simp add: l get_current_line_def Let_def s32_def)
qed

lemma gcl_ge_minus1:
  assumes "line_total m lines < 2 ^ 31"
  shows "-1 \<le> get_current_line m lines c"
  using gcl_loop_range [of 0 0 m lines c] assms by (auto simp: get_current_line_def)

lemma line_break_iff:
  assumes "line_total m lines < 2 ^ 31"
  shows "(tc > 0 \<and> get_current_line m lines tc > get_current_line m lines (tc - 1)) \<longleftrightarrow>
         (get_current_line m lines tc \<noteq> -1 \<and>
          get_current_line m lines tc \<noteq> get_current_line m lines (tc - 1))"
proof
  assume a: "tc > 0 \<and> get_current_line m lines tc > get_current_line m lines (tc - 1)"
  with gcl_ge_minus1 [OF assms, of "tc - 1"]
  show "get_current_line m lines tc \<noteq> -1 \<and>
        get_current_line m lines tc \<noteq> get_current_line m lines (tc - 1)" by auto
next
  assume b: "get_current_line m lines tc \<noteq> -1 \<and>
             get_current_line m lines tc \<noteq> get_current_line m lines (tc - 1)"
  then have ne: "lines \<noteq> []" by (auto simp: get_current_line_def)
  have pos: "tc > 0"
  proof (rule ccontr)
    assume "\<not> tc > 0"
    then have "get_current_line m lines tc = 0" "get_current_line m lines (tc - 1) = 0"
      using gcl_first_line [OF ne assms] by auto
    with b show False by simp
  qed
  from gcl_loop_mono [of 0 0 m lines "tc - 1" tc] assms b
  have "get_current_line m lines (tc - 1) \<le> get_current_line m lines tc"
    by (simp add: get_current_line_def)
  with b pos show "tc > 0 \<and> get_current_line m lines tc > get_current_line m lines (tc - 1)"
    by auto
qed

lemma reveal_guard:
  "0 \<le> tc \<Longrightarrow> tc < int n \<Longrightarrow> n < 2 ^ 31 \<Longrightarrow> \<not> u32 tc > u32 (int n - 1)"
  by (simp add: u32_def)

lemma load_utf8_text_fields [simp]:
  "type_counter (load_utf8_text m t s) = type_counter s"
  "current_x (load_utf8_text m t s) = current_x s"
  "timer (load_utf8_text m t s) = timer s"
  "duration (load_utf8_text m t s) = duration s"
  by (simp_all add: load_utf8_text_def Let_def)

lemma line_break_reset_fields [simp]:
  "type_counter (line_break_reset m ls rect s) = type_counter s"
  "utf8_text (line_break_reset m ls rect s) = utf8_text s"
  "timer (line_break_reset m ls rect s) = timer s"
  "duration (line_break_reset m ls rect s) = duration s"
  by (simp_all add: line_break_reset_def Let_def)

lemma space_marker: "hd (get_utf8_char_vector m [0x20, 0x20]) = 0x20"
  by (simp add: decode_eval)

lemma copy_to_screen_log:
  "calls (copy_to_screen tex r) =
     calls r @ (if render_target r \<noteq> None then [SetRenderTarget None] else [])
             @ [RenderCopy None tex None None]"
  by (auto simp: copy_to_screen_def reset_render_target_def SDL_RenderCopy_def
      SDL_SetRenderTarget_def SDL_GetRenderTarget_def)

lemmas sdl_eval =
  copy_to_screen_def reset_render_target_def create_target_texture_def compose_glyph_def
  SDL_CreateTexture_def SDL_SetRenderTarget_def SDL_SetTextureBlendMode_def
  SDL_SetRenderDrawColor_def SDL_RenderClear_def SDL_SetTextureColorMod_def SDL_RenderCopy_def
  SDL_DestroyTexture_def SDL_GetRenderTarget_def

lemmas layout_eval =
  get_all_lines_def split_string_by_newline_def remove_new_lines_def split_text_by_size_def
  stream_words_def is_space_def place_word_def real_offset_def glyph_advance_def
  get_current_line_def s32_def u32_def c_div_def c_rem_def

lemmas typewriter_eval =
  draw_typewriter_def load_utf8_text_def line_break_reset_def vector_at_def get_char_index_def
  draw_utf8_text_def get_atlas_rect_by_index_def white_def Let_def

text \<open>
  C5 (amended). On a reveal tick (the counter is inside the decoded text and the timer
  exceeds the duration) the cursor is reset to \<open>rect.x\<close> exactly when
  \<open>get_current_line\<close> finds a line for the character about to be revealed and that
  line differs from the line of the previously revealed character. The cursor the tick
  leaves behind is that base, advanced by one glyph step unless the code point is
  skipped. (The line totals are assumed to fit in an \<open>int\<close>.)
\<close>

theorem cursor_reset_on_line_change:
  assumes "u = utf8_text (load_utf8_text m text stats0)"
    and "0 \<le> type_counter stats0" "type_counter stats0 < int (length u)" "length u < 2 ^ 31"
    and "timer stats0 > duration stats0"
    and "lines = get_all_lines text sz h_offset (rect_w rect)"
    and "line_total m lines < 2 ^ 31"
  shows "\<exists>stats' target' r'.
           draw_typewriter m text font_atlas r rect target stats0 sz callback h_offset v_offset
             = Inr (stats', target', r') \<and>
           current_x stats' =
             (let base = (if get_current_line m lines (type_counter stats0) \<noteq> -1 \<and>
                             get_current_line m lines (type_counter stats0)
                               \<noteq> get_current_line m lines (type_counter stats0 - 1)
                          then rect_x rect else current_x stats0)
              in if get_char_index m (u ! nat (type_counter stats0)) (characters font_atlas) = -1 \<and>
                    u ! nat (type_counter stats0) \<noteq> 0x20
                 then base else s32 (base + glyph_advance sz h_offset))"
proof -
  let ?s = "load_utf8_text m text stats0"
  have g: "\<not> u32 (type_counter ?s) > u32 (int (length (utf8_text ?s)) - 1)"
    using assms(1-4) by (intro reveal_guard) auto
  have v: "vector_at (utf8_text (line_break_reset m lines rect ?s)) (type_counter ?s)
             = Inr (u ! nat (type_counter stats0))"
    using assms(1-3) by (simp add: vector_at_def)
  have x: "current_x (line_break_reset m lines rect ?s) =
             (if get_current_line m lines (type_counter stats0) \<noteq> -1 \<and>
                 get_current_line m lines (type_counter stats0)
                   \<noteq> get_current_line m lines (type_counter stats0 - 1)
              then rect_x rect else current_x stats0)"
    using line_break_iff [OF assms(7), of "type_counter stats0"]
    by (simp add: line_break_reset_def Let_def)
  show ?thesis
    using g v x assms(5)
    by (simp add: draw_typewriter_def Let_def assms(6) [symmetric] space_marker
        split: prod.splits)
qed

theorem cursor_reset_on_line_change_witness:
  "get_all_lines [0x61, 0x62, 0x20, 0x63, 0x64] 10 0 20 = [[0x61, 0x62], [0x63, 0x64]] \<and>
   get_current_line 0 [[0x61, 0x62], [0x63, 0x64]] 3 = 1 \<and>
   get_current_line 0 [[0x61, 0x62], [0x63, 0x64]] 2 = 0 \<and>
   map_sum id (\<lambda>st. current_x (fst st))
     (draw_typewriter 0 [0x61, 0x62, 0x20, 0x63, 0x64]
        \<lparr>atlas_texture = Some 7, characters = [0x61, 0x62, 0x63, 0x64]\<rparr>
        \<lparr>render_target = None, next_texture = 5, calls = []\<rparr> (Rect 16 40 20 100)
        \<lparr>finished = False, texture = Some 3\<rparr>
        \<lparr>current_lines = [], temp_text = [], utf8_text = [], type_counter = 3, current_x = 46,
         timer = 1, duration = 0\<rparr> 10 False 0 100)
   = Inr 26"
proof -
  let ?t = "[0x61, 0x62, 0x20, 0x63, 0x64] :: std_string"
  let ?s = "\<lparr>current_lines = [], temp_text = [], utf8_text = [], type_counter = 3, current_x = 46,
         timer = 1, duration = 0\<rparr>"
  let ?u = "utf8_text (load_utf8_text 0 ?t ?s)"
  have u: "?u = [0x61, 0x62, 0x20, 0x63, 0x64]"
    by (simp add: load_utf8_text_def remove_new_lines_def decode_eval)
  have l: "get_all_lines ?t 10 0 20 = [[0x61, 0x62], [0x63, 0x64]]"
    by (simp add: layout_eval)
  have t: "line_total 0 (get_all_lines ?t 10 0 (rect_w (Rect 16 40 20 100))) < 2 ^ 31"
    by (simp add: l line_total_def decode_eval)
  have g: "get_current_line 0 [[0x61, 0x62], [0x63, 0x64]] 3 = 1"
          "get_current_line 0 [[0x61, 0x62], [0x63, 0x64]] 2 = 0"
    by (simp_all add: get_current_line_def decode_eval s32_def)
  have i: "get_char_index 0 0x63 [0x61, 0x62, 0x63, 0x64] = 2"
    by (simp add: get_char_index_def decode_eval s32_def)
  have a: "glyph_advance 10 0 = 10" by (simp add: glyph_advance_def s32_def c_div_def)
  from cursor_reset_on_line_change [of ?u 0 ?t ?s _ 10 0 "Rect 16 40 20 100", OF refl _ _ _ _ refl t,
      of "\<lparr>atlas_texture = Some 7, characters = [0x61, 0x62, 0x63, 0x64]\<rparr>"
         "\<lparr>render_target = None, next_texture = 5, calls = []\<rparr>"
         "\<lparr>finished = False, texture = Some 3\<rparr>" False 100]
  show ?thesis
    by (auto simp: u l g i a s32_def)
qed

text \<open>
  C5 as stated fails when \<open>get_current_line\<close> finds no line. In "a   b" the wrap joins
  the two words with one space, so the only line is "a b" and index 4 (the "b") is past
  its total: the line index is -1, the previous one is 0, they differ, and the cursor is
  not reset (it goes from 56 to 66, not to rect.x + 10 = 26).
\<close>

theorem cursor_reset_counterexample:
  "get_all_lines [0x61, 0x20, 0x20, 0x20, 0x62] 10 0 100 = [[0x61, 0x20, 0x62]] \<and>
   get_current_line 0 [[0x61, 0x20, 0x62]] 4 = -1 \<and>
   get_current_line 0 [[0x61, 0x20, 0x62]] 3 = 0 \<and>
   map_sum id (\<lambda>st. current_x (fst st))
     (draw_typewriter 0 [0x61, 0x20, 0x20, 0x20, 0x62]
        \<lparr>atlas_texture = Some 7, characters = [0x61, 0x62]\<rparr>
        \<lparr>render_target = None, next_texture = 5, calls = []\<rparr> (Rect 16 40 100 100)
        \<lparr>finished = False, texture = Some 3\<rparr>
        \<lparr>current_lines = [], temp_text = [], utf8_text = [], type_counter = 4, current_x = 56,
         timer = 1, duration = 0\<rparr> 10 False 0 100)
   = Inr 66"
  by (simp add: typewriter_eval layout_eval decode_eval sdl_eval)

text \<open>
  C6 (amended). On a reveal tick whose code point has no glyph in the atlas and is not
  a space, the call returns normally with the counter advanced by exactly one, the target
  untouched and nothing drawn but the re-present of the cached texture; the timer is
  kept. The cursor is not advanced: it keeps its value, unless the skipped code point
  starts a new line, in which case the line-break rule has already put it at \<open>rect.x\<close>.
\<close>

theorem skip_unmapped_glyph:
  assumes "u = utf8_text (load_utf8_text m text stats0)"
    and "0 \<le> type_counter stats0" "type_counter stats0 < int (length u)" "length u < 2 ^ 31"
    and "timer stats0 > duration stats0"
    and "get_char_index m (u ! nat (type_counter stats0)) (characters font_atlas) = -1"
    and "u ! nat (type_counter stats0) \<noteq> 0x20"
    and "lines = get_all_lines text sz h_offset (rect_w rect)"
  shows "\<exists>stats'.
           draw_typewriter m text font_atlas r rect target stats0 sz callback h_offset v_offset
             = Inr (stats', target, copy_to_screen (texture target) r) \<and>
           type_counter stats' = type_counter stats0 + 1 \<and>
           current_x stats' =
             (if type_counter stats0 > 0 \<and>
                 get_current_line m lines (type_counter stats0)
                   > get_current_line m lines (type_counter stats0 - 1)
              then rect_x rect else current_x stats0) \<and>
           timer stats' = timer stats0 \<and>
           calls (copy_to_screen (texture target) r) =
             calls r @ (if render_target r \<noteq> None then [SetRenderTarget None] else [])
                     @ [RenderCopy None (texture target) None None]"
proof -
  let ?s = "load_utf8_text m text stats0"
  have g: "\<not> u32 (type_counter ?s) > u32 (int (length (utf8_text ?s)) - 1)"
    using assms(1-4) by (intro reveal_guard) auto
  have v: "vector_at (utf8_text (line_break_reset m lines rect ?s)) (type_counter ?s)
             = Inr (u ! nat (type_counter stats0))"
    using assms(1-3) by (simp add: vector_at_def)
  have s: "s32 (type_counter stats0 + 1) = type_counter stats0 + 1"
    using assms(2-4) by (intro s32_id) auto
  have x: "current_x (line_break_reset m lines rect ?s) =
             (if type_counter stats0 > 0 \<and>
                 get_current_line m lines (type_counter stats0)
                   > get_current_line m lines (type_counter stats0 - 1)
              then rect_x rect else current_x stats0)"
    by (simp add: line_break_reset_def Let_def)
  show ?thesis
    using g v s x assms(5-7)
    by (simp add: draw_typewriter_def Let_def assms(8) [symmetric] space_marker copy_to_screen_log)
qed


theorem skip_unmapped_glyph_witness:
  "get_char_index 0 0x7E [0x61] = -1 \<and>
   draw_typewriter 0 [0x61, 0x7E] \<lparr>atlas_texture = Some 7, characters = [0x61]\<rparr>
     \<lparr>render_target = None, next_texture = 5, calls = []\<rparr> (Rect 16 40 100 100)
     \<lparr>finished = False, texture = Some 3\<rparr>
     \<lparr>current_lines = [], temp_text = [], utf8_text = [], type_counter = 1, current_x = 26,
      timer = 1, duration = 0\<rparr> 10 False 0 100
   = Inr (\<lparr>current_lines = [], temp_text = [], utf8_text = [0x61, 0x7E],
           type_counter = 2, current_x = 26, timer = 1, duration = 0\<rparr>,
          \<lparr>finished = False, texture = Some 3\<rparr>,
          \<lparr>render_target = None, next_texture = 5, calls = [RenderCopy None (Some 3) None None]\<rparr>)"
proof -
  let ?t = "[0x61, 0x7E] :: std_string"
  let ?s = "\<lparr>current_lines = [], temp_text = [], utf8_text = [], type_counter = 1, current_x = 26,
      timer = 1, duration = 0\<rparr>"
  let ?u = "utf8_text (load_utf8_text 0 ?t ?s)"
  have u: "?u = [0x61, 0x7E]"
    by (simp add: load_utf8_text_def remove_new_lines_def decode_eval)
  have i: "get_char_index 0 0x7E [0x61] = -1"
    by (simp add: get_char_index_def decode_eval)
  have h3: "type_counter ?s < int (length ?u)" and h4: "length ?u < 2 ^ 31"
    and h6: "get_char_index 0 (?u ! nat (type_counter ?s))
               (characters \<lparr>atlas_texture = Some 7, characters = [0x61]\<rparr>) = -1"
    and h7: "?u ! nat (type_counter ?s) \<noteq> 0x20"
    by (simp_all add: u i)
  from skip_unmapped_glyph [of ?u 0 ?t ?s _ _ 10 0 "Rect 16 40 100 100", OF refl _ h3 h4 _ h6 h7 refl,
      of "\<lparr>render_target = None, next_texture = 5, calls = []\<rparr>"
         "\<lparr>finished = False, texture = Some 3\<rparr>" False 100]
  show ?thesis
    by (simp add: i) (simp add: typewriter_eval layout_eval decode_eval sdl_eval)
qed

text \<open>
  C6 as stated fails when the skipped code point is the first of a line. "a ~" in a
  rectangle 10 wide is laid out as "a" and "~"; the "~" (index 2, no glyph) is on line 1,
  the space before it on line 0, so the tick first resets the cursor from 36 to
  rect.x = 16 and then skips.
\<close>

theorem skip_unmapped_glyph_counterexample:
  "get_char_index 0 0x7E [0x61] = -1 \<and>
   draw_typewriter 0 [0x61, 0x20, 0x7E] \<lparr>atlas_texture = Some 7, characters = [0x61]\<rparr>
     \<lparr>render_target = None, next_texture = 5, calls = []\<rparr> (Rect 16 40 10 100)
     \<lparr>finished = False, texture = Some 3\<rparr>
     \<lparr>current_lines = [], temp_text = [], utf8_text = [], type_counter = 2, current_x = 36,
      timer = 1, duration = 0\<rparr> 10 False 0 100
   = Inr (\<lparr>current_lines = [], temp_text = [], utf8_text = [0x61, 0x20, 0x7E],
           type_counter = 3, current_x = 16, timer = 1, duration = 0\<rparr>,
          \<lparr>finished = False, texture = Some 3\<rparr>,
          \<lparr>render_target = None, next_texture = 5, calls = [RenderCopy None (Some 3) None None]\<rparr>)"
  by (simp add: typewriter_eval layout_eval decode_eval sdl_eval)

section \<open>The completion callback\<close>

lemma complete_tick:
  assumes "utf8_text s \<noteq> []" "u32 (type_counter s) > u32 (int (length (utf8_text s)) - 1)"
  shows "draw_typewriter m text fa r rect tg s sz cb h v = Inr (s, tg, copy_to_screen (texture tg) r)"
proof -
  from assms(1) have "load_utf8_text m text s = s" by (simp add: load_utf8_text_def)
  with assms(2) show ?thesis by (simp add: draw_typewriter_def Let_def)
qed

lemma callback_count_copy: "callback_count (copy_to_screen tex r) = callback_count r"
  by (simp add: callback_count_def copy_to_screen_log)

lemma idle_frames:
  assumes "utf8_text s \<noteq> []" "u32 (type_counter s) > u32 (int (length (utf8_text s)) - 1)"
  shows "\<exists>s' r'. typewriter_frames m text fa rect sz cb h v ds (s, tg, r) = Inr (s', tg, r') \<and>
           type_counter s' = type_counter s \<and> utf8_text s' = utf8_text s \<and>
           callback_count r' = callback_count r"
  using assms
proof (induction ds arbitrary: s r)
  case Nil
  then show ?case by simp
next
  case (Cons d ds)
  let ?s = "s\<lparr>timer := timer s + d\<rparr>"
  have "\<exists>s' r'. typewriter_frames m text fa rect sz cb h v ds (?s, tg, copy_to_screen (texture tg) r)
            = Inr (s', tg, r') \<and>
          type_counter s' = type_counter ?s \<and> utf8_text s' = utf8_text ?s \<and>
          callback_count r' = callback_count (copy_to_screen (texture tg) r)"
    using Cons.prems by (intro Cons.IH) simp_all
  then show ?case
    by (simp add: complete_tick [OF Cons.prems] callback_count_copy)
qed

lemma multibyte_first_frame:
  "draw_typewriter 0 [0xC3, 0xA9] \<lparr>atlas_texture = Some 7, characters = [0xC3, 0xA9, 0x61]\<rparr>
     \<lparr>render_target = None, next_texture = 5, calls = []\<rparr> (Rect 16 40 464 256)
     \<lparr>finished = False, texture = None\<rparr>
     \<lparr>current_lines = [], temp_text = [], utf8_text = [], type_counter = 0, current_x = 16,
      timer = 1, duration = 0\<rparr> 18 True 57 100
   = Inr (\<lparr>current_lines = [], temp_text = [], utf8_text = [0xC3A9], type_counter = 1,
           current_x = 24, timer = 0, duration = 0\<rparr>,
          \<lparr>finished = True, texture = Some 5\<rparr>,
          \<lparr>render_target = None, next_texture = 7,
           calls = [CreateTexture 5, SetRenderTarget (Some 5), SetTextureBlendMode (Some 5),
                    SetRenderDrawColor, RenderClear (Some 5),
                    CreateTexture 6, SetRenderTarget (Some 6), SetTextureBlendMode (Some 6),
                    SetRenderDrawColor, RenderClear (Some 6),
                    SetTextureColorMod (Some 6) (Color 255 255 255),
                    RenderCopy (Some 6) (Some 7) (Some (Rect 0 0 32 32)) (Some (Rect 16 40 18 18)),
                    SetRenderTarget (Some 5), RenderCopy (Some 5) (Some 6) None None,
                    SetRenderTarget None, RenderCopy None (Some 5) None None,
                    DestroyTexture (Some 6)]\<rparr>)"
  by (simp add: typewriter_eval layout_eval decode_eval sdl_eval)

text \<open>
  C1 on the code. The callback test compares the counter with the byte length of the
  text, not with the number of code points. For the text of the two bytes C3 A9 (an e with acute accent, one
  code point, glyph in the atlas, callback supplied) the first frame reveals the only
  code point and leaves the counter at 1, which is not above 2 - 1; every later frame
  takes the completed branch. So after any number of frames the text is complete, the
  target finished, and the callback has not been invoked. The second part runs four
  frames on "a~" with no glyph for "~": the last code point is skipped, the skip returns
  before the callback test, and the callback is not invoked either.
\<close>

theorem callback_missed_on_multibyte_text:
  "(\<exists>s tg r.
      typewriter_frames 0 [0xC3, 0xA9] \<lparr>atlas_texture = Some 7, characters = [0xC3, 0xA9, 0x61]\<rparr>
        (Rect 16 40 464 256) 18 True 57 100 (d # ds)
        (\<lparr>current_lines = [], temp_text = [], utf8_text = [], type_counter = 0, current_x = 16,
          timer = 1, duration = 0\<rparr>,
         \<lparr>finished = False, texture = None\<rparr>,
         \<lparr>render_target = None, next_texture = 5, calls = []\<rparr>)
        = Inr (s, tg, r) \<and>
      utf8_text s = [0xC3A9] \<and> type_counter s = 1 \<and> finished tg \<and> callback_count r = 0) \<and>
   map_sum id (\<lambda>(s, tg, r). (type_counter s, length (utf8_text s), callback_count r))
     (typewriter_frames 0 [0x61, 0x7E] \<lparr>atlas_texture = Some 7, characters = [0xC3, 0xA9, 0x61]\<rparr>
        (Rect 16 40 464 256) 18 True 57 100 [1, 1, 1, 1]
        (\<lparr>current_lines = [], temp_text = [], utf8_text = [], type_counter = 0, current_x = 16,
          timer = 1, duration = 0\<rparr>,
         \<lparr>finished = False, texture = None\<rparr>,
         \<lparr>render_target = None, next_texture = 5, calls = []\<rparr>))
     = Inr (2, 2, 0)"
proof
  let ?s1 = "\<lparr>current_lines = [], temp_text = [], utf8_text = [0xC3A9 :: codepoint], type_counter = 1,
           current_x = 24, timer = d, duration = 0\<rparr>"
  let ?tg1 = "\<lparr>finished = True, texture = Some (5 :: nat)\<rparr>"
  let ?r1 = "\<lparr>render_target = None, next_texture = 7,
           calls = [CreateTexture 5, SetRenderTarget (Some 5), SetTextureBlendMode (Some 5),
                    SetRenderDrawColor, RenderClear (Some 5),
                    CreateTexture 6, SetRenderTarget (Some 6), SetTextureBlendMode (Some 6),
                    SetRenderDrawColor, RenderClear (Some 6),
                    SetTextureColorMod (Some 6) (Color 255 255 255),
                    RenderCopy (Some 6) (Some 7) (Some (Rect 0 0 32 32)) (Some (Rect 16 40 18 18)),
                    SetRenderTarget (Some 5), RenderCopy (Some 5) (Some 6) None None,
                    SetRenderTarget None, RenderCopy None (Some 5) None None,
                    DestroyTexture (Some 6)]\<rparr>"
  let ?fa = "\<lparr>atlas_texture = Some 7, characters = [0xC3, 0xA9, 0x61]\<rparr>"
  have "utf8_text ?s1 \<noteq> []" "u32 (type_counter ?s1) > u32 (int (length (utf8_text ?s1)) - 1)"
    by (simp_all add: u32_def)
  from idle_frames [OF this, of 0 "[0xC3, 0xA9]" ?fa "Rect 16 40 464 256" 18 True 57 100 ds ?tg1 ?r1]
  obtain s' r' where
    f: "typewriter_frames 0 [0xC3, 0xA9] ?fa (Rect 16 40 464 256) 18 True 57 100 ds (?s1, ?tg1, ?r1)
          = Inr (s', ?tg1, r')"
    and p: "type_counter s' = 1" "utf8_text s' = [0xC3A9]" "callback_count r' = callback_count ?r1"
    by auto
  have c: "callback_count ?r1 = 0" by (simp add: callback_count_def)
  show "\<exists>s tg r.
      typewriter_frames 0 [0xC3, 0xA9] \<lparr>atlas_texture = Some 7, characters = [0xC3, 0xA9, 0x61]\<rparr>
        (Rect 16 40 464 256) 18 True 57 100 (d # ds)
        (\<lparr>current_lines = [], temp_text = [], utf8_text = [], type_counter = 0, current_x = 16,
          timer = 1, duration = 0\<rparr>,
         \<lparr>finished = False, texture = None\<rparr>,
         \<lparr>render_target = None, next_texture = 5, calls = []\<rparr>)
        = Inr (s, tg, r) \<and>
      utf8_text s = [0xC3A9] \<and> type_counter s = 1 \<and> finished tg \<and> callback_count r = 0"
    using f p c by (simp add: multibyte_first_frame)
next
  show "map_sum id (\<lambda>(s, tg, r). (type_counter s, length (utf8_text s), callback_count r))
     (typewriter_frames 0 [0x61, 0x7E] \<lparr>atlas_texture = Some 7, characters = [0xC3, 0xA9, 0x61]\<rparr>
        (Rect 16 40 464 256) 18 True 57 100 [1, 1, 1, 1]
        (\<lparr>current_lines = [], temp_text = [], utf8_text = [], type_counter = 0, current_x = 16,
          timer = 1, duration = 0\<rparr>,
         \<lparr>finished = False, texture = None\<rparr>,
         \<lparr>render_target = None, next_texture = 5, calls = []\<rparr>))
     = Inr (2, 2, 0)"
    by (simp add: typewriter_eval layout_eval decode_eval sdl_eval callback_count_def)
qed


end
